theory Spec2Isabelle
  imports Complex_Main
begin

section \<open>Time-value-of-money functions of business.py: rates and solve_r\<close>

text \<open>
  The Python source computes on floats. The embedding idealises a float as a \<^typ>\<open>real\<close>:
  every arithmetic operation is exact, and the only rounding is the explicit
  \<^verbatim>\<open>round(x, 10)\<close> of the source. The range of a float is kept where leaving it
  raises: \<^verbatim>\<open>math.exp\<close> and \<^verbatim>\<open>**\<close> raise OverflowError when their result is too
  large for a float. Exceptions of the source are values of \<open>py_error\<close>, and a function
  that may raise returns \<open>py_error + 'a\<close>.
\<close>

subsection \<open>Python values and primitives\<close>

datatype py_error = ZeroDivisionError | ValueError | TypeError | KeyError | IndexError
  | OverflowError | NoConvergence

text \<open>
  An optional numeric argument whose default is \<^verbatim>\<open>False\<close>: \<open>None\<close> is the omitted
  argument, \<open>Some x\<close> the number \<open>x\<close>. Python evaluates \<^verbatim>\<open>0 == False\<close> to true, so
  \<^verbatim>\<open>x == False\<close> holds for the omitted argument and for zero.
\<close>

definition eq_False :: "'a::zero option \<Rightarrow> bool" where
  "eq_False x = (case x of None \<Rightarrow> True | Some y \<Rightarrow> y = 0)"

text \<open>The number an argument stands for in arithmetic (\<^verbatim>\<open>False\<close> is 0).\<close>

definition num_of :: "'a::zero option \<Rightarrow> 'a" where
  "num_of x = (case x of None \<Rightarrow> 0 | Some y \<Rightarrow> y)"

text \<open>
  A tag argument (\<^verbatim>\<open>r_is\<close>, \<^verbatim>\<open>get\<close>): omitted, a numeric code or a string.
\<close>

datatype pyarg = PyFalse | PyInt int | PyStr string

definition truthy :: "pyarg \<Rightarrow> bool" where
  "truthy a = (case a of PyFalse \<Rightarrow> False | PyInt n \<Rightarrow> n \<noteq> 0 | PyStr s \<Rightarrow> s \<noteq> [])"

definition digit :: "nat \<Rightarrow> char" where
  "digit n = ''0123456789'' ! (n mod 10)"

function str_nat :: "nat \<Rightarrow> string" where
  "str_nat n = (if n < 10 then [digit n] else str_nat (n div 10) @ [digit n])"
  by pat_completeness auto
termination
  by (relation "measure id") auto

definition str :: "pyarg \<Rightarrow> string" where
  "str a = (case a of PyFalse \<Rightarrow> ''False''
            | PyInt n \<Rightarrow> (if n < 0 then CHR ''-'' # str_nat (nat (- n)) else str_nat (nat n))
            | PyStr s \<Rightarrow> s)"

definition lower_char :: "char \<Rightarrow> char" where
  "lower_char c = (let n = (of_char c :: nat) in
                   if 65 \<le> n \<and> n \<le> 90
                   then (case c of Char b0 b1 b2 b3 b4 b5 b6 b7 \<Rightarrow>
                           Char b0 b1 b2 b3 b4 True b6 b7)
                   else c)"

definition lower :: "string \<Rightarrow> string" where
  "lower s = map lower_char s"

text \<open>
  \<^verbatim>\<open>round(x, n)\<close>: to the nearest multiple of \<open>10\<^sup>-\<^sup>n\<close>, a tie going to the even one.
\<close>

definition round_half_even :: "real \<Rightarrow> int" where
  "round_half_even y = (let f = \<lfloor>y\<rfloor>; r = y - of_int f in
                         if r < 1 / 2 then f
                         else if 1 / 2 < r then f + 1
                         else if even f then f else f + 1)"

definition py_round :: "real \<Rightarrow> nat \<Rightarrow> real" where
  "py_round x n = of_int (round_half_even (x * 10 ^ n)) / 10 ^ n"

text \<open>
  The largest float is \<open>2\<^sup>1\<^sup>0\<^sup>2\<^sup>4 - 2\<^sup>9\<^sup>7\<^sup>1\<close>. A result whose magnitude reaches the midpoint
  between it and \<open>2\<^sup>1\<^sup>0\<^sup>2\<^sup>4\<close> rounds to infinity, which \<^verbatim>\<open>math.exp\<close> and \<^verbatim>\<open>**\<close>
  report as OverflowError.
\<close>

definition float_limit :: real where
  "float_limit = 2 ^ 1024 - 2 ^ 970"

definition in_range :: "real \<Rightarrow> py_error + real" where
  "in_range y = (if float_limit \<le> \<bar>y\<bar> then Inl OverflowError else Inr y)"

text \<open>\<^verbatim>\<open>math.exp\<close>\<close>

definition py_exp :: "real \<Rightarrow> py_error + real" where
  "py_exp x = in_range (exp x)"

text \<open>
  \<^verbatim>\<open>x ** y\<close> on floats. A zero base with a negative exponent raises ZeroDivisionError.
  A negative base with an exponent that is not a whole number gives a complex number in
  Python 3; both callers hand that number on to \<^verbatim>\<open>math.exp\<close>, which raises TypeError, so
  the model raises it here.
\<close>

definition py_pow :: "real \<Rightarrow> real \<Rightarrow> py_error + real" where
  "py_pow x y = (if 0 < x then in_range (x powr y)
                 else if x = 0 then
                   (if y < 0 then Inl ZeroDivisionError else if y = 0 then Inr 1 else Inr 0)
                 else if y \<in> \<int> then in_range (power_int x \<lfloor>y\<rfloor>)
                 else Inl TypeError)"

definition py_div :: "real \<Rightarrow> real \<Rightarrow> py_error + real" where
  "py_div a b = (if b = 0 then Inl ZeroDivisionError else Inr (a / b))"

text \<open>\<^verbatim>\<open>math.log\<close> raises ValueError outside its domain.\<close>

definition py_log :: "real \<Rightarrow> py_error + real" where
  "py_log x = (if 0 < x then Inr (ln x) else Inl ValueError)"

subsection \<open>get_rType\<close>

definition get_rType :: "string \<Rightarrow> py_error + string" where
  "get_rType x =
     (if x = ''1'' then Inr ''i''
      else if x = [] then Inl IndexError
      else if lower (take 1 x) = ''i'' then Inr ''i''
      else if x = ''4'' \<or> lower (take 2 x) = ''de'' \<or> lower (take 1 x) = ''c''
              \<or> lower (take 1 x) = ''f'' then Inr ''delta''
      else if x = ''2'' \<or> lower (take 1 x) = ''d'' then Inr ''d''
      else if x = ''3'' \<or> lower (take 1 x) = ''v'' then Inr ''v''
      else Inr x)"

subsection \<open>rates\<close>

record rate_bundle =
  rate_i :: real
  rate_d :: real
  rate_v :: real
  rate_delta :: real

datatype rates_result = Bundle rate_bundle | Scalar real

definition interest :: "real \<Rightarrow> py_error + rate_bundle" where
  "interest r = (case py_div r (1 + r) of Inl e \<Rightarrow> Inl e
     | Inr d \<Rightarrow> (case py_exp r of Inl e \<Rightarrow> Inl e
     | Inr x \<Rightarrow> Inr \<lparr>rate_i = r, rate_d = d, rate_v = 1 - d, rate_delta = x - 1\<rparr>))"

definition discount :: "real \<Rightarrow> py_error + rate_bundle" where
  "discount r = (case py_div r (1 - r) of Inl e \<Rightarrow> Inl e
     | Inr i \<Rightarrow> (case py_exp i of Inl e \<Rightarrow> Inl e
     | Inr x \<Rightarrow> Inr \<lparr>rate_i = i, rate_d = r, rate_v = 1 - r, rate_delta = x - 1\<rparr>))"

definition getV :: "real \<Rightarrow> py_error + rate_bundle" where
  "getV r = (case py_div 1 r of Inl e \<Rightarrow> Inl e
     | Inr w \<Rightarrow> (case py_exp (w - 1) of Inl e \<Rightarrow> Inl e
     | Inr x \<Rightarrow> Inr \<lparr>rate_i = w - 1, rate_d = 1 - r, rate_v = r, rate_delta = x - 1\<rparr>))"

definition delta :: "real \<Rightarrow> py_error + rate_bundle" where
  "delta r = (case py_log (1 + r) of Inl e \<Rightarrow> Inl e
     | Inr i \<Rightarrow> (case py_div i (1 + i) of Inl e \<Rightarrow> Inl e
         | Inr d \<Rightarrow> Inr \<lparr>rate_i = i, rate_d = d, rate_v = 1 - d, rate_delta = r\<rparr>))"

definition roundValues :: "rate_bundle \<Rightarrow> rate_bundle" where
  "roundValues answer =
     \<lparr>rate_i = py_round (rate_i answer) 10, rate_d = py_round (rate_d answer) 10,
      rate_v = py_round (rate_v answer) 10, rate_delta = py_round (rate_delta answer) 10\<rparr>"

text \<open>\<^verbatim>\<open>answer[get]\<close> on the four-key dictionary.\<close>

definition lookup :: "rate_bundle \<Rightarrow> string \<Rightarrow> py_error + real" where
  "lookup answer k =
     (if k = ''i'' then Inr (rate_i answer)
      else if k = ''d'' then Inr (rate_d answer)
      else if k = ''v'' then Inr (rate_v answer)
      else if k = ''delta'' then Inr (rate_delta answer)
      else Inl KeyError)"

text \<open>Lines 119 to 122: the kind of the input rate, an interest rate by default.\<close>

definition rate_kind :: "pyarg \<Rightarrow> py_error + string" where
  "rate_kind r_is = (if truthy r_is then get_rType (str r_is) else Inr ''i'')"

text \<open>Lines 125 to 132: any kind that is not i, d or v is taken as a force of interest.\<close>

definition calc :: "string \<Rightarrow> real \<Rightarrow> py_error + rate_bundle" where
  "calc kind r = (if kind = ''i'' then interest r
                  else if kind = ''d'' then discount r
                  else if kind = ''v'' then getV r
                  else delta r)"

text \<open>
  Lines 144 to 146: one entry of the bundle when \<^verbatim>\<open>get\<close> is given. At that point the
  answer is always a dictionary; indexing a float would raise TypeError.
\<close>

definition select_get :: "pyarg \<Rightarrow> rates_result \<Rightarrow> py_error + rates_result" where
  "select_get get answer =
     (if truthy get then
        (case get_rType (str get) of Inl e \<Rightarrow> Inl e
         | Inr k \<Rightarrow> (case answer of Scalar x \<Rightarrow> Inl TypeError
             | Bundle b \<Rightarrow> (case lookup b k of Inl e \<Rightarrow> Inl e | Inr x \<Rightarrow> Inr (Scalar x))))
      else Inr answer)"

text \<open>
  The body of \<^verbatim>\<open>rates\<close>. The recursive call \<^verbatim>\<open>rates(r=i)\<close> is made only when
  \<^verbatim>\<open>q_per_t\<close> is truthy and passes no \<^verbatim>\<open>q_per_t\<close> itself, which is the measure.
\<close>

function rates :: "real \<Rightarrow> pyarg \<Rightarrow> pyarg \<Rightarrow> real option \<Rightarrow> py_error + rates_result" where
  "rates r r_is get q_per_t =
     (case rate_kind r_is of Inl e \<Rightarrow> Inl e
      | Inr kind \<Rightarrow> (case calc kind r of Inl e \<Rightarrow> Inl e
      | Inr answer0 \<Rightarrow>
          (case (if \<not> eq_False q_per_t then
                   (case py_pow (1 + rate_i (roundValues answer0)) (1 / num_of q_per_t) of
                      Inl e \<Rightarrow> Inl e
                    | Inr p \<Rightarrow> rates (p - 1) PyFalse PyFalse None)
                 else Inr (Bundle (roundValues answer0))) of Inl e \<Rightarrow> Inl e
      | Inr answer \<Rightarrow> select_get get answer)))"
  by pat_completeness auto
termination
  by (relation "measure (\<lambda>(r, r_is, get, q_per_t). if eq_False q_per_t then 0 else 1)")
     (auto simp: eq_False_def)

subsection \<open>solve_r\<close>

text \<open>
  The payment argument \<^verbatim>\<open>q\<close>: omitted, a number, or a list object of the caller.
  \<^verbatim>\<open>q == False\<close> holds for the omitted argument and for the number 0, never for a list.
\<close>

datatype qarg = QFalse | QNum real | QList "real list"

definition q_eq_False :: "qarg \<Rightarrow> bool" where
  "q_eq_False q = (case q of QFalse \<Rightarrow> True | QNum x \<Rightarrow> x = 0 | QList xs \<Rightarrow> False)"

text \<open>
  The source updates the list \<^verbatim>\<open>q\<close> partly in place (\<^verbatim>\<open>q *= t\<close>, \<^verbatim>\<open>q[0] = ...\<close>,
  \<^verbatim>\<open>q[-1] = ...\<close>, \<^verbatim>\<open>q.append\<close>) and partly by binding \<^verbatim>\<open>q\<close> to a new list
  (\<^verbatim>\<open>q = [q]\<close>, \<^verbatim>\<open>q = [-pv] + q\<close>). The state keeps the list \<^verbatim>\<open>q\<close> is bound to, the
  caller's list object when one was passed, and whether the two are still the same object.
\<close>

record qstate =
  payments :: "real list"
  callers :: "real list option"
  shared :: bool

definition mutate :: "qstate \<Rightarrow> real list \<Rightarrow> qstate" where
  "mutate s xs = s\<lparr>payments := xs, callers := (if shared s then Some xs else callers s)\<rparr>"

definition rebind :: "qstate \<Rightarrow> real list \<Rightarrow> qstate" where
  "rebind s xs = s\<lparr>payments := xs, shared := False\<rparr>"

text \<open>\<^verbatim>\<open>if isinstance(q,list) == False: q = [q]\<close>\<close>

definition as_list :: "qarg \<Rightarrow> qstate" where
  "as_list q = (case q of
       QList xs \<Rightarrow> \<lparr>payments = xs, callers = Some xs, shared = True\<rparr>
     | QNum x \<Rightarrow> \<lparr>payments = [x], callers = None, shared = False\<rparr>
     | QFalse \<Rightarrow> \<lparr>payments = [0], callers = None, shared = False\<rparr>)"

text \<open>\<^verbatim>\<open>if t != False: q *= t\<close> (a negative count empties the list)\<close>

definition repeat_t :: "int option \<Rightarrow> qstate \<Rightarrow> qstate" where
  "repeat_t t s = (if \<not> eq_False t
                   then mutate s (concat (replicate (nat (num_of t)) (payments s))) else s)"

definition apply_pv :: "real option \<Rightarrow> bool \<Rightarrow> qstate \<Rightarrow> py_error + qstate" where
  "apply_pv pv annuity_due s =
     (if \<not> eq_False pv \<and> annuity_due then
        (case payments s of [] \<Rightarrow> Inl IndexError
         | x # xs \<Rightarrow> Inr (mutate s ((x - num_of pv) # xs)))
      else if \<not> eq_False pv then Inr (rebind s ((- num_of pv) # payments s))
      else Inr s)"

definition apply_fv :: "real option \<Rightarrow> bool \<Rightarrow> qstate \<Rightarrow> py_error + qstate" where
  "apply_fv fv annuity_due s =
     (if \<not> eq_False fv \<and> \<not> annuity_due then
        (if payments s = [] then Inl IndexError
         else Inr (mutate s (butlast (payments s) @ [last (payments s) - num_of fv])))
      else if \<not> eq_False fv \<and> annuity_due then Inr (mutate s (payments s @ [- num_of fv]))
      else Inr s)"

definition assemble ::
  "real option \<Rightarrow> qarg \<Rightarrow> int option \<Rightarrow> real option \<Rightarrow> bool \<Rightarrow> py_error + qstate" where
  "assemble pv q t fv annuity_due =
     (case apply_pv pv annuity_due (repeat_t t (as_list q)) of Inl e \<Rightarrow> Inl e
      | Inr s \<Rightarrow> apply_fv fv annuity_due s)"

text \<open>
  \<^verbatim>\<open>mpmath.polyroots\<close> is a library outside the repository, so the root finder is a
  parameter of the model: it takes the coefficients, highest degree first, and returns the
  roots, each a real \<^verbatim>\<open>mpf\<close> or a complex \<^verbatim>\<open>mpc\<close>, or raises.
\<close>

datatype root = Mpf real | Mpc complex

type_synonym root_finder = "real list \<Rightarrow> py_error + root list"

fun real_roots :: "root list \<Rightarrow> real list" where
  "real_roots [] = []"
| "real_roots (Mpf x # rs) = x # real_roots rs"
| "real_roots (Mpc z # rs) = real_roots rs"

definition py_max :: "real list \<Rightarrow> py_error + real" where
  "py_max xs = (case xs of [] \<Rightarrow> Inl ValueError | x # ys \<Rightarrow> Inr (fold max ys x))"

definition py_min :: "real list \<Rightarrow> py_error + real" where
  "py_min xs = (case xs of [] \<Rightarrow> Inl ValueError | x # ys \<Rightarrow> Inr (fold min ys x))"

text \<open>Lines 246 to 256: the largest real root, or 1 when there is none, minus one.\<close>

definition root_rate :: "root list \<Rightarrow> py_error + real" where
  "root_rate rs = (let real = real_roots rs;
                       real = (if real = [] then [1] else real)
                   in case py_max real of Inl e \<Rightarrow> Inl e | Inr r \<Rightarrow> Inr (r - 1))"

text \<open>Lines 223 to 229, the path without payments.\<close>

definition closed_form :: "real option \<Rightarrow> int option \<Rightarrow> real option \<Rightarrow> py_error + real" where
  "closed_form pv t fv =
     (let pv = (if eq_False pv then Some 1 else pv);
          fv = (if eq_False fv then Some 1 else fv)
      in case py_div (num_of fv) (num_of pv) of Inl e \<Rightarrow> Inl e
         | Inr ratio \<Rightarrow> (case py_div 1 (of_int (num_of t)) of Inl e \<Rightarrow> Inl e
         | Inr ex \<Rightarrow> (case py_pow ratio ex of Inl e \<Rightarrow> Inl e
         | Inr p \<Rightarrow> Inr (p - 1))))"

text \<open>
  Lines 221 to 262 of \<^verbatim>\<open>solve_r\<close>: the periodic rate \<^verbatim>\<open>r\<close> that is handed to
  \<^verbatim>\<open>rates\<close>.
\<close>

definition solve_r_periodic ::
  "root_finder \<Rightarrow> real option \<Rightarrow> qarg \<Rightarrow> int option \<Rightarrow> real option \<Rightarrow> bool
     \<Rightarrow> py_error + real" where
  "solve_r_periodic polyroots pv q t fv annuity_due =
     (if q_eq_False q then closed_form pv t fv
      else case assemble pv q t fv annuity_due of Inl e \<Rightarrow> Inl e
      | Inr s \<Rightarrow> (case polyroots (payments s) of Inl e \<Rightarrow> Inl e
      | Inr rs \<Rightarrow> (case root_rate rs of Inl e \<Rightarrow> Inl e
      | Inr r \<Rightarrow> (case py_max (payments s) of Inl e \<Rightarrow> Inl e
      | Inr hi \<Rightarrow> (if hi < 0 then Inr 0
                   else case py_min (payments s) of Inl e \<Rightarrow> Inl e
                   | Inr lo \<Rightarrow> (if 0 < lo then Inr 0 else Inr r))))))"

text \<open>Lines 264 to 269: the frequency is inverted and the rate handed to \<^verbatim>\<open>rates\<close>.\<close>

definition solve_r ::
  "root_finder \<Rightarrow> real option \<Rightarrow> qarg \<Rightarrow> int option \<Rightarrow> real option \<Rightarrow> bool \<Rightarrow> pyarg
     \<Rightarrow> real option \<Rightarrow> py_error + rates_result" where
  "solve_r polyroots pv q t fv annuity_due get q_per_t =
     (case solve_r_periodic polyroots pv q t fv annuity_due of Inl e \<Rightarrow> Inl e
      | Inr r \<Rightarrow>
          rates r PyFalse get
            (if \<not> eq_False q_per_t then Some (1 / num_of q_per_t) else q_per_t))"

text \<open>
  What the caller's list object holds after the part of \<^verbatim>\<open>solve_r\<close> that builds the
  payments, also when building them raised; \<open>None\<close> when \<^verbatim>\<open>q\<close> was not a list.
\<close>

definition callers_list_after ::
  "real option \<Rightarrow> qarg \<Rightarrow> int option \<Rightarrow> real option \<Rightarrow> bool \<Rightarrow> real list option" where
  "callers_list_after pv q t fv annuity_due =
     (if q_eq_False q then callers (as_list q)
      else let s1 = repeat_t t (as_list q) in
        case apply_pv pv annuity_due s1 of Inl e \<Rightarrow> callers s1
        | Inr s2 \<Rightarrow> (case apply_fv fv annuity_due s2 of Inl e \<Rightarrow> callers s2
        | Inr s3 \<Rightarrow> callers s3))"

text \<open>
  What \<^verbatim>\<open>mpmath.polyroots\<close> does on a coefficient list of at most two entries: the zero
  polynomial is refused, a constant has no root, a leading zero is divided by, and
  \<open>a x + b\<close> has the real root \<open>- b / a\<close>. Longer lists are outside this instance, which
  answers them as the library does when its iteration fails.
\<close>

definition polyroots_linear :: root_finder where
  "polyroots_linear cs = (case cs of
       [] \<Rightarrow> Inl ValueError
     | [c] \<Rightarrow> (if c = 0 then Inl ValueError else Inr [])
     | [a, b] \<Rightarrow> (if a = 0 then Inl ZeroDivisionError else Inr [Mpf (- b / a)])
     | _ \<Rightarrow> Inl NoConvergence)"

subsection \<open>The specification's reading, for comparison\<close>

text \<open>
  The default for the path without payments: a value that is absent, or 0, counts as 1.
\<close>

definition default1 :: "real option \<Rightarrow> real" where
  "default1 x = (case x of None \<Rightarrow> 1 | Some y \<Rightarrow> (if y = 0 then 1 else y))"





declare rates.simps [simp del]

section \<open>Properties\<close>

lemma rate_kind_default: "rate_kind PyFalse = Inr ''i''"
  by (simp add: rate_kind_def truthy_def)

lemma calc_i: "calc ''i'' r = interest r"
  by (simp add: calc_def)

lemma select_get_none: "select_get PyFalse answer = Inr answer"
  by (simp add: select_get_def truthy_def)

lemma rates_no_frequency:
  "eq_False q_per_t \<Longrightarrow> rates r r_is get q_per_t =
     (case rate_kind r_is of Inl e \<Rightarrow> Inl e
      | Inr kind \<Rightarrow> (case calc kind r of Inl e \<Rightarrow> Inl e
      | Inr a \<Rightarrow> select_get get (Bundle (roundValues a))))"
  by (simp add: rates.simps [of r r_is get q_per_t] split: sum.splits)

lemma rates_plain:
  "rates r PyFalse PyFalse None =
     (case interest r of Inl e \<Rightarrow> Inl e | Inr a \<Rightarrow> Inr (Bundle (roundValues a)))"
  by (simp add: rates_no_frequency eq_False_def rate_kind_default calc_i select_get_none
      split: sum.splits)


subsection \<open>The range of floats\<close>

lemma float_limit_gt: "3 ^ 600 < float_limit"
  by (simp add: float_limit_def)

lemma in_range_ok: "\<bar>y\<bar> < float_limit \<Longrightarrow> in_range y = Inr y"
  by (simp add: in_range_def)

lemma in_range_small: "\<bar>y\<bar> \<le> 3 ^ 600 \<Longrightarrow> in_range y = Inr y"
  using float_limit_gt by (intro in_range_ok) linarith

lemma in_range_overflow: "float_limit \<le> \<bar>y\<bar> \<Longrightarrow> in_range y = Inl OverflowError"
  by (simp add: in_range_def)

lemma exp_le_pow3: "x \<le> real n \<Longrightarrow> exp x \<le> 3 ^ n"
proof -
  assume "x \<le> real n"
  then have "exp x \<le> exp (real n * 1)" by simp
  also have "\<dots> = exp 1 ^ n" by (rule exp_of_nat_mult)
  also have "\<dots> \<le> 3 ^ n" by (intro power_mono exp_le) simp
  finally show ?thesis .
qed

lemma py_exp_ok: "exp x < float_limit \<Longrightarrow> py_exp x = Inr (exp x)"
  by (simp add: py_exp_def in_range_ok)

lemma py_exp_small: "x \<le> 600 \<Longrightarrow> py_exp x = Inr (exp x)"
proof -
  assume "x \<le> 600"
  then have "exp x \<le> 3 ^ 600" using exp_le_pow3 [of x 600] by simp
  then show ?thesis using float_limit_gt by (intro py_exp_ok) linarith
qed

lemma exp_ge_pow2: "real n \<le> x \<Longrightarrow> 2 ^ n \<le> exp x"
proof -
  assume "real n \<le> x"
  have "(2::real) ^ n \<le> exp 1 ^ n"
    using exp_ge_add_one_self [of 1] by (intro power_mono) simp_all
  also have "\<dots> = exp (real n * 1)" by (rule exp_of_nat_mult [symmetric])
  also have "\<dots> \<le> exp x" using \<open>real n \<le> x\<close> by simp
  finally show ?thesis .
qed

lemma py_exp_large: "1024 \<le> x \<Longrightarrow> py_exp x = Inl OverflowError"
proof -
  assume "1024 \<le> x"
  then have "2 ^ 1024 \<le> exp x" using exp_ge_pow2 [of 1024 x] by simp
  moreover have "float_limit \<le> 2 ^ 1024" by (simp add: float_limit_def)
  ultimately have "float_limit \<le> \<bar>exp x\<bar>" by simp
  then show ?thesis by (simp add: py_exp_def in_range_overflow)
qed


lemma interest_small:
  "1 + r \<noteq> 0 \<Longrightarrow> r \<le> 600 \<Longrightarrow> interest r =
     Inr \<lparr>rate_i = r, rate_d = r / (1 + r), rate_v = 1 - r / (1 + r), rate_delta = exp r - 1\<rparr>"
  by (simp add: interest_def py_div_def py_exp_small)


lemma rate_kind_delta: "rate_kind (PyStr ''delta'') = Inr ''delta''"
  by (simp add: rate_kind_def truthy_def str_def get_rType_def lower_def lower_char_def)

lemma rate_kind_d: "rate_kind (PyStr ''d'') = Inr ''d''"
  by (simp add: rate_kind_def truthy_def str_def get_rType_def lower_def lower_char_def)

subsection \<open>Rounding\<close>

lemma round_half_even_error: "\<bar>of_int (round_half_even y) - y\<bar> \<le> 1 / 2"
  unfolding round_half_even_def Let_def by (auto; linarith)

lemma py_round_error: "\<bar>py_round x n - x\<bar> \<le> 1 / (2 * 10 ^ n)"
proof -
  have "\<bar>py_round x n - x\<bar> = \<bar>of_int (round_half_even (x * 10 ^ n)) - x * 10 ^ n\<bar> / 10 ^ n"
    by (simp add: py_round_def field_simps abs_divide)
  also have "\<dots> \<le> (1 / 2) / 10 ^ n"
    by (intro divide_right_mono round_half_even_error) simp
  finally show ?thesis by simp
qed

lemma round_half_even_mono:
  assumes "x \<le> y"
  shows "round_half_even x \<le> round_half_even y"
proof -
  have fl: "\<lfloor>x\<rfloor> \<le> \<lfloor>y\<rfloor>" using assms by (rule floor_mono)
  have lo: "\<lfloor>y\<rfloor> \<le> round_half_even y" and hi: "round_half_even x \<le> \<lfloor>x\<rfloor> + 1"
    by (simp_all add: round_half_even_def Let_def)
  show ?thesis
  proof (cases "\<lfloor>x\<rfloor> < \<lfloor>y\<rfloor>")
    case True
    then show ?thesis using lo hi by linarith
  next
    case False
    then have "\<lfloor>x\<rfloor> = \<lfloor>y\<rfloor>" using fl by simp
    then show ?thesis using assms
      by (auto simp: round_half_even_def Let_def)
  qed
qed

lemma py_round_mono: "x \<le> y \<Longrightarrow> py_round x n \<le> py_round y n"
  by (simp add: py_round_def divide_right_mono round_half_even_mono)

lemma py_round_half: "py_round (1 / 2) 10 = 1 / 2"
  by (simp add: py_round_def round_half_even_def Let_def)

lemma py_round_tenths:
  "py_round (- 21 / 10) 10 = - 21 / 10" "py_round (1 / 10) 10 = 1 / 10"
  "py_round 0 10 = 0" "py_round 1 10 = 1"
  by (simp_all add: py_round_def round_half_even_def Let_def)

lemma apply_pv_zero: "apply_pv (Some 0) annuity_due s = apply_pv None annuity_due s"
  by (simp add: apply_pv_def eq_False_def)

lemma apply_fv_zero: "apply_fv (Some 0) annuity_due s = apply_fv None annuity_due s"
  by (simp add: apply_fv_def eq_False_def)

lemma closed_form_zero:
  "closed_form (Some 0) t fv = closed_form None t fv"
  "closed_form pv t (Some 0) = closed_form pv t None"
  "closed_form None t fv = closed_form (Some 1) t fv"
  "closed_form pv t None = closed_form pv t (Some 1)"
  by (simp_all add: closed_form_def eq_False_def)

lemma solve_r_periodic_zero:
  "solve_r_periodic polyroots (Some 0) q t fv annuity_due =
     solve_r_periodic polyroots None q t fv annuity_due"
  "solve_r_periodic polyroots pv q t (Some 0) annuity_due =
     solve_r_periodic polyroots pv q t None annuity_due"
  by (simp_all add: solve_r_periodic_def assemble_def apply_pv_zero apply_fv_zero
      closed_form_zero cong: sum.case_cong)

lemma closed_form_examples:
  "solve_r_periodic polyroots (Some (- 100)) QFalse (Some 1) (Some 110) annuity_due =
     Inr (- 21 / 10)"
  "solve_r_periodic polyroots (Some 100) QFalse (Some 1) (Some 110) annuity_due =
     Inr (1 / 10)"
proof -
  have a: "in_range (- 11 / 10) = Inr (- 11 / 10)" "in_range (11 / 10) = Inr (11 / 10)"
    by (simp_all add: in_range_small)
  show "solve_r_periodic polyroots (Some (- 100)) QFalse (Some 1) (Some 110) annuity_due =
     Inr (- 21 / 10)"
    using a(1) by (simp add: solve_r_periodic_def q_eq_False_def closed_form_def eq_False_def
        num_of_def py_div_def py_pow_def Let_def)
  show "solve_r_periodic polyroots (Some 100) QFalse (Some 1) (Some 110) annuity_due =
     Inr (1 / 10)"
    using a(2) by (simp add: solve_r_periodic_def q_eq_False_def closed_form_def eq_False_def
        num_of_def py_div_def py_pow_def Let_def)
qed

text \<open>
  C5, as stated, fails: \<^verbatim>\<open>solve_r(pv=-100, fv=110, t=1)\<close> returns the bundle whose
  interest rate is \<open>-2.1\<close>, the closed form applied to the signed ratio \<open>-1.1\<close>.
\<close>

theorem solve_r_neg100_counterexample:
  "solve_r polyroots_linear (Some (- 100)) QFalse (Some 1) (Some 110) False PyFalse None =
     Inr (Bundle \<lparr>rate_i = - 21 / 10, rate_d = py_round (21 / 11) 10,
                  rate_v = py_round (- 10 / 11) 10,
                  rate_delta = py_round (exp (- 21 / 10) - 1) 10\<rparr>)"
  using py_round_tenths(1)
  by (simp add: solve_r_def closed_form_examples eq_False_def rates_plain interest_small
      roundValues_def)

text \<open>
  C5, amended. \<^verbatim>\<open>solve_r(pv=100, fv=110, t=1)\<close>, with no payment stream, returns a
  bundle whose interest rate is \<open>0.10\<close>, whatever the root finder and the annuity-due flag.
\<close>

theorem solve_r_pos100_rate:
  "solve_r polyroots (Some 100) QFalse (Some 1) (Some 110) annuity_due PyFalse None =
     Inr (Bundle \<lparr>rate_i = 1 / 10, rate_d = py_round (1 / 11) 10,
                  rate_v = py_round (10 / 11) 10,
                  rate_delta = py_round (exp (1 / 10) - 1) 10\<rparr>)"
  using py_round_tenths(2)
  by (simp add: solve_r_def closed_form_examples eq_False_def rates_plain interest_small
      roundValues_def)

text \<open>
  C10. An argument given as 0 behaves as an omitted one: \<^verbatim>\<open>q=0\<close> takes the path without
  payments, whose rate is the closed form, and \<^verbatim>\<open>pv=0\<close> or \<^verbatim>\<open>fv=0\<close> gives the result of
  the call without that argument; on the path without payments the value 1 is used.
\<close>

theorem zero_is_omitted:
  "solve_r polyroots pv (QNum 0) t fv annuity_due get q_per_t =
     solve_r polyroots pv QFalse t fv annuity_due get q_per_t \<and>
   solve_r_periodic polyroots pv (QNum 0) t fv annuity_due = closed_form pv t fv \<and>
   solve_r polyroots (Some 0) q t fv annuity_due get q_per_t =
     solve_r polyroots None q t fv annuity_due get q_per_t \<and>
   solve_r polyroots pv q t (Some 0) annuity_due get q_per_t =
     solve_r polyroots pv q t None annuity_due get q_per_t \<and>
   closed_form (Some 0) t fv = closed_form (Some 1) t fv \<and>
   closed_form pv t (Some 0) = closed_form pv t (Some 1)"
proof -
  have q: "solve_r_periodic polyroots pv (QNum 0) t fv annuity_due = closed_form pv t fv"
    "solve_r_periodic polyroots pv QFalse t fv annuity_due = closed_form pv t fv"
    by (simp_all add: solve_r_periodic_def q_eq_False_def)
  show ?thesis
    unfolding solve_r_def q solve_r_periodic_zero
    using closed_form_zero by simp
qed




text \<open>
  C3, as stated, fails. For the interest rate 2000 \<^verbatim>\<open>math.exp\<close> overflows. For the
  force of interest \<open>-1\<close> the logarithm is taken of 0, and for \<open>exp (-1) - 1\<close> the
  interest rate is \<open>-1\<close> and \<open>i / (1 + i)\<close> divides by zero.
\<close>

theorem rates_bundle_counterexample:
  "rates 2000 PyFalse PyFalse None = Inl OverflowError \<and>
   rates (- 1) (PyStr ''delta'') PyFalse None = Inl ValueError \<and>
   rates (exp (- 1) - 1) (PyStr ''delta'') PyFalse None = Inl ZeroDivisionError"
proof -
  have "py_exp 2000 = Inl OverflowError"
    by (rule py_exp_large) simp
  then have a: "rates 2000 PyFalse PyFalse None = Inl OverflowError"
    by (simp add: rates_plain interest_def py_div_def)
  have b: "rates (- 1) (PyStr ''delta'') PyFalse None = Inl ValueError"
    by (simp add: rates_no_frequency eq_False_def rate_kind_delta calc_def delta_def
        py_log_def)
  have c: "rates (exp (- 1) - 1) (PyStr ''delta'') PyFalse None = Inl ZeroDivisionError"
    by (simp add: rates_no_frequency eq_False_def rate_kind_delta calc_def delta_def
        py_log_def py_div_def)
  show ?thesis using a b c by simp
qed





lemma closed_form_defaults:
  "num_of (if eq_False pv then Some 1 else pv) = default1 pv" "default1 pv \<noteq> 0"
  by (auto simp: eq_False_def num_of_def default1_def split: option.splits)

lemma closed_form_eq:
  assumes "t \<noteq> 0"
  shows "closed_form pv (Some t) fv =
           (case py_pow (default1 fv / default1 pv) (1 / of_int t) of Inl e \<Rightarrow> Inl e
            | Inr p \<Rightarrow> Inr (p - 1))"
proof -
  have "py_div (default1 fv) (default1 pv) = Inr (default1 fv / default1 pv)"
    by (simp add: py_div_def closed_form_defaults)
  moreover have "py_div 1 (real_of_int (num_of (Some t))) = Inr (1 / of_int t)"
    using assms by (simp add: py_div_def num_of_def)
  ultimately show ?thesis
    by (simp only: closed_form_def Let_def closed_form_defaults sum.case)
qed

lemma half_not_int: "(1 / 2 :: real) \<notin> \<int>"
proof
  assume "(1 / 2 :: real) \<in> \<int>"
  then obtain k :: int where "(1 / 2 :: real) = of_int k"
    by (auto elim: Ints_cases)
  then have "(of_int (2 * k) :: real) = of_int 1" by simp
  then have "2 * k = 1" by (simp only: of_int_eq_iff)
  then show False by presburger
qed


text \<open>
  C4, as stated, fails. Without \<^verbatim>\<open>t\<close> the exponent \<^verbatim>\<open>1 / t\<close> divides by zero and no
  rate reaches the converter. A negative ratio with \<^verbatim>\<open>t=2\<close> has a complex root, which
  ends in TypeError. A supplied \<^verbatim>\<open>pv=0\<close> is replaced by 1, where the claimed formula
  divides by it. The ratio \<open>2\<^sup>-\<^sup>1\<^sup>0\<^sup>7\<^sup>4\<close> with \<^verbatim>\<open>t=-1\<close> overflows.
\<close>

theorem no_payment_rate_counterexample:
  "solve_r_periodic polyroots_linear (Some 100) QFalse None (Some 110) False =
     Inl ZeroDivisionError \<and>
   solve_r_periodic polyroots_linear (Some (- 1)) QFalse (Some 2) (Some 1) False =
     Inl TypeError \<and>
   solve_r_periodic polyroots_linear (Some 0) QFalse (Some 1) (Some 5) False = Inr 4 \<and>
   solve_r_periodic polyroots_linear (Some 1) QFalse (Some (- 1)) (Some (1 / 2 ^ 1074)) False =
     Inl OverflowError"
proof -
  have a: "solve_r_periodic polyroots_linear (Some 100) QFalse None (Some 110) False =
     Inl ZeroDivisionError"
    by (simp add: solve_r_periodic_def q_eq_False_def closed_form_def eq_False_def
        num_of_def py_div_def Let_def)
  have b: "solve_r_periodic polyroots_linear (Some (- 1)) QFalse (Some 2) (Some 1) False =
     Inl TypeError"
    using half_not_int
    by (simp add: solve_r_periodic_def q_eq_False_def closed_form_eq default1_def py_pow_def)
  have "in_range (5::real) = Inr 5" by (simp add: in_range_small)
  then have c: "solve_r_periodic polyroots_linear (Some 0) QFalse (Some 1) (Some 5) False =
     Inr 4"
    by (simp add: solve_r_periodic_def q_eq_False_def closed_form_eq default1_def py_pow_def)
  have "in_range ((2::real) ^ 1074) = Inl OverflowError"
    by (rule in_range_overflow) (simp add: float_limit_def)
  then have d: "solve_r_periodic polyroots_linear (Some 1) QFalse (Some (- 1))
      (Some (1 / 2 ^ 1074)) False = Inl OverflowError"
    by (simp add: solve_r_periodic_def q_eq_False_def closed_form_eq default1_def py_pow_def
        powr_minus)
  show ?thesis using a b c d by simp
qed
















subsection \<open>Round trip through the discount rate\<close>

lemma reciprocal_error:
  fixes w w' W u :: real
  assumes "0 < W" and "W \<le> w" and "W \<le> w'" and "\<bar>w' - w\<bar> \<le> u"
  shows "\<bar>(1 / w' - 1) - (1 / w - 1)\<bar> \<le> u / (W * W)"
proof -
  have pos: "0 < w" "0 < w'" using assms by linarith+
  have "W * W \<le> w * w'"
    using assms(1-3) by (intro mult_mono) auto
  have "(1 / w' - 1) - (1 / w - 1) = (w - w') / (w * w')"
    using pos by (simp add: field_simps)
  then have "\<bar>(1 / w' - 1) - (1 / w - 1)\<bar> = \<bar>w - w'\<bar> / (w * w')"
    using pos by (simp add: abs_divide abs_mult)
  also have "\<dots> \<le> u / (w * w')"
    using assms(4) pos by (intro divide_right_mono) (auto simp: abs_minus_commute)
  also have "\<dots> \<le> u / (W * W)"
  proof (rule divide_left_mono)
    show "W * W \<le> w * w'" by fact
    show "0 \<le> u" using assms(4) by linarith
    show "0 < w * w' * (W * W)" using pos assms(1) by simp
  qed
  finally show ?thesis .
qed

text \<open>
  The error of the round trip for rates up to a bound \<open>B\<close> whose discount rate
  \<open>B / (1 + B)\<close> has ten decimals: it grows with the square of \<open>1 + B\<close>.
\<close>

lemma round_trip_bound:
  fixes r B :: real
  assumes r: "- 1 < r" "r \<le> B" and B: "0 \<le> B"
    and rep: "py_round (B / (1 + B)) 10 = B / (1 + B)"
  defines "d' \<equiv> py_round (r / (1 + r)) 10"
  shows "d' < 1"
    and "\<bar>py_round (d' / (1 - d')) 10 - r\<bar> \<le> (1 + (1 + B) * (1 + B)) / (2 * 10 ^ 10)"
proof -
  let ?W = "1 / (1 + B)"
  let ?w = "1 / (1 + r)"
  have Wpos: "0 < ?W" using B by simp
  have d_eq: "r / (1 + r) = 1 - ?w" using r(1) by (simp add: field_simps)
  have D_eq: "B / (1 + B) = 1 - ?W" using B by (simp add: field_simps)
  have wW: "?W \<le> ?w" using r B by (simp add: frac_le)
  then have "r / (1 + r) \<le> B / (1 + B)" unfolding d_eq D_eq by simp
  then have "d' \<le> B / (1 + B)"
    unfolding d'_def using py_round_mono [of "r / (1 + r)" "B / (1 + B)" 10] rep by simp
  then have w'W: "?W \<le> 1 - d'" unfolding D_eq by simp
  then show "d' < 1" using Wpos by linarith
  have e0: "\<bar>d' - r / (1 + r)\<bar> \<le> 1 / (2 * 10 ^ 10)"
    unfolding d'_def by (rule py_round_error)
  have "(1 - d') - ?w = - (d' - r / (1 + r))"
    using d_eq by linarith
  then have err: "\<bar>(1 - d') - ?w\<bar> \<le> 1 / (2 * 10 ^ 10)"
    using e0 by (simp only: abs_minus)
  have g: "d' / (1 - d') = 1 / (1 - d') - 1"
    using \<open>d' < 1\<close> by (simp add: field_simps)
  have rr: "r = 1 / ?w - 1" using r(1) by simp
  have "\<bar>(1 / (1 - d') - 1) - (1 / ?w - 1)\<bar> \<le> (1 / (2 * 10 ^ 10)) / (?W * ?W)"
    by (rule reciprocal_error [OF Wpos wW w'W err])
  moreover have "(1 / (1 - d') - 1) - (1 / ?w - 1) = d' / (1 - d') - r"
    using g rr by linarith
  moreover have "(1 / (2 * 10 ^ 10)) / (?W * ?W) = ((1 + B) * (1 + B)) / (2 * 10 ^ 10)"
    using B by simp
  ultimately have e1: "\<bar>d' / (1 - d') - r\<bar> \<le> ((1 + B) * (1 + B)) / (2 * 10 ^ 10)"
    by (simp only:)
  have e2: "\<bar>py_round (d' / (1 - d')) 10 - d' / (1 - d')\<bar> \<le> 1 / (2 * 10 ^ 10)"
    by (rule py_round_error)
  have "\<bar>py_round (d' / (1 - d')) 10 - r\<bar>
          \<le> ((1 + B) * (1 + B)) / (2 * 10 ^ 10) + 1 / (2 * 10 ^ 10)"
    using e1 e2 by linarith
  then show "\<bar>py_round (d' / (1 - d')) 10 - r\<bar> \<le> (1 + (1 + B) * (1 + B)) / (2 * 10 ^ 10)"
    by (simp add: add_divide_distrib)
qed

lemma rates_discount:
  "x \<noteq> 1 \<Longrightarrow> x / (1 - x) \<le> 600 \<Longrightarrow> rates x (PyStr ''d'') PyFalse None =
     Inr (Bundle \<lparr>rate_i = py_round (x / (1 - x)) 10, rate_d = py_round x 10,
                  rate_v = py_round (1 - x) 10,
                  rate_delta = py_round (exp (x / (1 - x)) - 1) 10\<rparr>)"
  by (simp add: rates_no_frequency eq_False_def rate_kind_d calc_def discount_def py_div_def
      py_exp_small select_get_none roundValues_def)

text \<open>
  C8. For every interest rate \<open>r\<close> with \<open>-1 < r \<le> 1\<close>, converting to the discount rate
  and back, \<^verbatim>\<open>rates(rates(r)['d'], 'd')['i']\<close>, returns a value within
  \<open>2.5 \<sqdot> 10\<^sup>-\<^sup>1\<^sup>0\<close> of \<open>r\<close>, and within \<open>10\<^sup>-\<^sup>1\<^sup>0\<close> of \<open>r\<close> when \<open>r \<le> 0\<close>: the
  conversion \<open>d / (1 - d)\<close> inverts \<open>i / (1 + i)\<close> up to the two roundings.
\<close>

theorem discount_round_trip:
  assumes "- 1 < r" and "r \<le> 1"
  shows "\<exists>b b'. rates r PyFalse PyFalse None = Inr (Bundle b) \<and>
           rates (rate_d b) (PyStr ''d'') PyFalse None = Inr (Bundle b') \<and>
           \<bar>rate_i b' - r\<bar> \<le> 25 / 10 ^ 11 \<and>
           (r \<le> 0 \<longrightarrow> \<bar>rate_i b' - r\<bar> \<le> 1 / 10 ^ 10)"
proof -
  define d' where "d' = py_round (r / (1 + r)) 10"
  have nz: "1 + r \<noteq> 0" using assms(1) by simp
  have half: "py_round (1 / (1 + 1)) 10 = 1 / (1 + 1)"
    using py_round_half by simp
  have zero: "py_round (0 / (1 + 0)) 10 = 0 / (1 + 0)"
    by (simp add: py_round_tenths)
  from round_trip_bound [OF assms(1) assms(2) _ half]
  have lt: "d' < 1" and b1: "\<bar>py_round (d' / (1 - d')) 10 - r\<bar> \<le> 25 / 10 ^ 11"
    unfolding d'_def by simp_all
  have b0: "r \<le> 0 \<longrightarrow> \<bar>py_round (d' / (1 - d')) 10 - r\<bar> \<le> 1 / 10 ^ 10"
  proof
    assume "r \<le> 0"
    from round_trip_bound(2) [OF assms(1) this _ zero]
    show "\<bar>py_round (d' / (1 - d')) 10 - r\<bar> \<le> 1 / 10 ^ 10"
      unfolding d'_def by simp
  qed
  have first: "rates r PyFalse PyFalse None =
      Inr (Bundle \<lparr>rate_i = py_round r 10, rate_d = d',
                   rate_v = py_round (1 - r / (1 + r)) 10,
                   rate_delta = py_round (exp r - 1) 10\<rparr>)"
    using assms(2) by (simp add: rates_plain interest_small [OF nz] roundValues_def d'_def)
  have "r / (1 + r) \<le> 1 / 2"
    using assms by (simp add: field_simps)
  then have "d' \<le> py_round (1 / 2) 10"
    unfolding d'_def by (rule py_round_mono)
  then have dh: "d' \<le> 1 / 2" by (simp add: py_round_half)
  then have small: "d' / (1 - d') \<le> 600"
    using lt by (simp add: field_simps)
  have second: "rates d' (PyStr ''d'') PyFalse None =
      Inr (Bundle \<lparr>rate_i = py_round (d' / (1 - d')) 10, rate_d = py_round d' 10,
                  rate_v = py_round (1 - d') 10,
                  rate_delta = py_round (exp (d' / (1 - d')) - 1) 10\<rparr>)"
    using lt small by (intro rates_discount) simp_all
  show ?thesis
    using first second b1 b0 by simp
qed

theorem discount_round_trip_witness:
  "\<exists>b b'. rates 0 PyFalse PyFalse None = Inr (Bundle b) \<and>
           rates (rate_d b) (PyStr ''d'') PyFalse None = Inr (Bundle b') \<and>
           \<bar>rate_i b' - 0\<bar> \<le> 25 / 10 ^ 11 \<and> \<bar>rate_i b' - 0\<bar> \<le> 1 / 10 ^ 10"
  using discount_round_trip [of 0] by simp

subsection \<open>The path with payments\<close>








lemma py_max_Max: "xs \<noteq> [] \<Longrightarrow> py_max xs = Inr (Max (set xs))"
  by (cases xs) (simp_all add: py_max_def Max.set_eq_fold [symmetric] del: set_simps)

lemma py_min_Min: "xs \<noteq> [] \<Longrightarrow> py_min xs = Inr (Min (set xs))"
  by (cases xs) (simp_all add: py_min_def Min.set_eq_fold [symmetric] del: set_simps)

lemma root_rate_eq:
  "root_rate rs = Inr (if real_roots rs = [] then 0 else Max (set (real_roots rs)) - 1)"
proof (cases "real_roots rs = []")
  case True
  then show ?thesis by (simp add: root_rate_def py_max_def)
next
  case False
  then show ?thesis by (simp add: root_rate_def py_max_Max)
qed

lemma periodic_of_cash_flow:
  assumes "\<not> q_eq_False q" and "assemble pv q t fv annuity_due = Inr s"
    and "payments s \<noteq> []" and "polyroots (payments s) = Inr rs"
  shows "solve_r_periodic polyroots pv q t fv annuity_due =
           Inr (if list_all (\<lambda>x. x < 0) (payments s) \<or> list_all (\<lambda>x. 0 < x) (payments s)
                then 0
                else if real_roots rs = [] then 0 else Max (set (real_roots rs)) - 1)"
proof -
  have mx: "Max (set (payments s)) < 0 \<longleftrightarrow> list_all (\<lambda>x. x < 0) (payments s)"
    using assms(3) by (simp add: list_all_iff)
  have mn: "0 < Min (set (payments s)) \<longleftrightarrow> list_all (\<lambda>x. 0 < x) (payments s)"
    using assms(3) by (simp add: list_all_iff)
  show ?thesis
    using assms mx mn
    by (simp add: solve_r_periodic_def root_rate_eq py_max_Max py_min_Min)
qed






lemma degenerate_rate_zero:
  assumes "\<not> q_eq_False q" and "assemble pv q t fv annuity_due = Inr s"
    and "payments s \<noteq> []" and "polyroots (payments s) = Inr rs"
    and "list_all (\<lambda>x. x < 0) (payments s) \<or> list_all (\<lambda>x. 0 < x) (payments s)"
  shows "solve_r_periodic polyroots pv q t fv annuity_due = Inr 0 \<and>
         solve_r polyroots pv q t fv annuity_due PyFalse None =
           Inr (Bundle \<lparr>rate_i = 0, rate_d = 0, rate_v = 1, rate_delta = 0\<rparr>)"
proof -
  have p: "solve_r_periodic polyroots pv q t fv annuity_due = Inr 0"
    using periodic_of_cash_flow [where polyroots = polyroots, OF assms(1-4)] assms(5)
    by auto
  then show ?thesis
    by (simp add: solve_r_def eq_False_def rates_plain interest_small
        roundValues_def py_round_tenths)
qed

text \<open>
  C2 at the payments \<open>[1, 0]\<close>, none of which is negative: the test
  \<^verbatim>\<open>max(q) < 0 or min(q) > 0\<close> is false because of the zero, the rate stays at the root
  \<open>0\<close> minus one, and \<^verbatim>\<open>rates(-1)\<close> divides by zero.
\<close>

theorem zero_payment_not_degenerate:
  "solve_r_periodic polyroots_linear None (QList [1, 0]) None None False = Inr (- 1) \<and>
   solve_r polyroots_linear None (QList [1, 0]) None None False PyFalse None =
     Inl ZeroDivisionError"
proof -
  have a: "assemble None (QList [1, 0]) None None False =
             Inr \<lparr>payments = [1, 0], callers = Some [1, 0], shared = True\<rparr>"
    by (simp add: assemble_def apply_pv_def apply_fv_def repeat_t_def as_list_def
        eq_False_def)
  have p: "solve_r_periodic polyroots_linear None (QList [1, 0]) None None False = Inr (- 1)"
    using periodic_of_cash_flow [OF _ a, of polyroots_linear "[Mpf 0]"]
    by (simp add: q_eq_False_def polyroots_linear_def)
  show ?thesis
    by (simp add: p solve_r_def eq_False_def rates_plain interest_def py_div_def)
qed

subsection \<open>The caller's list\<close>

text \<open>
  C9 at the list \<open>[1, 2]\<close> with \<^verbatim>\<open>t=2\<close>: after the call the caller's list holds
  \<open>[1, 2, 1, 2]\<close>, and a second call with the same list object builds its payments from
  that. An annuity-due with \<^verbatim>\<open>pv\<close> and \<^verbatim>\<open>fv\<close> changes the first entry and appends one;
  the path that puts \<open>- pv\<close> in front works on a new list and leaves the caller's alone.
\<close>

theorem solve_r_mutates_callers_list:
  "callers_list_after None (QList [1, 2]) (Some 2) None False = Some [1, 2, 1, 2] \<and>
   map_sum id payments (assemble None (QList [1, 2]) (Some 2) None False) =
     Inr [1, 2, 1, 2] \<and>
   map_sum id payments (assemble None (QList [1, 2, 1, 2]) (Some 2) None False) =
     Inr [1, 2, 1, 2, 1, 2, 1, 2] \<and>
   callers_list_after (Some 5) (QList [1, 2]) None (Some 7) True = Some [- 4, 2, - 7] \<and>
   callers_list_after (Some 5) (QList [1, 2]) None (Some 7) False = Some [1, 2]"
  by (simp add: callers_list_after_def assemble_def apply_pv_def apply_fv_def repeat_t_def
      as_list_def eq_False_def num_of_def mutate_def rebind_def q_eq_False_def Let_def
      numeral_2_eq_2)

end
